theory Spec2Isabelle
  imports
    Main
    "HOL-Library.AList"
    "HOL-Library.Char_ord"
    "HOL-Library.List_Lexorder"
    "HOL-Library.Multiset"
    "HOL-Library.Sublist"
begin

section \<open>Exceptions and log records\<close>

text \<open>
  Python strings are modelled as \<^typ>\<open>string\<close>: a character is a code point below 256,
  and the order on strings is the lexicographic order on code points
  (\<open>HOL-Library.List_Lexorder\<close> over \<open>HOL-Library.Char_ord\<close>), which is how
  Python compares \<open>str\<close> values.

  \<open>lib_exc\<close> are the exception classes raised by the interpreter and by the libraries
  the module calls (each constructor stands for the class and its subclasses, as an
  \<open>except\<close> clause reads it); \<open>DCOSException\<close> is the exception of \<open>dcos.errors\<close>,
  which carries a message.
\<close>

datatype lib_exc =
  IOError | ValueError | TypeError | AttributeError | NameError | ConnectionError | SchemaError

datatype exn = DCOSException string | Lib lib_exc

datatype log_level = ERROR | FATAL

datatype log_arg = Str string | Exc lib_exc

record log_record =
  level :: log_level
  fmt :: string
  args :: "log_arg list"

section \<open>\<open>str.join\<close>\<close>

fun py_join :: "string \<Rightarrow> string list \<Rightarrow> string" where
  "py_join sep [] = []"
| "py_join sep [x] = x"
| "py_join sep (x # y # ys) = x @ sep @ py_join sep (y # ys)"

text \<open>\<open>list_to_err\<close>: \<open>str.join('\n\n', errs)\<close>.\<close>

definition list_to_err :: "string list \<Rightarrow> string" where
  "list_to_err errs = py_join ''\<newline>\<newline>'' errs"

section \<open>\<open>read_file\<close>\<close>






section \<open>\<open>load_jsons\<close>\<close>

text \<open>
  \<open>json.loads\<close> is the codec of the standard library, a parameter of the model: it returns
  the value or raises. The bare \<open>except\<close> catches every exception; the handler logs the
  input and the exception class, and raises \<open>DCOSException\<close> with a fixed message. The model
  returns the log records written together with the result.
\<close>

definition load_jsons ::
  "(string \<Rightarrow> lib_exc + 'j) \<Rightarrow> string \<Rightarrow> log_record list \<times> (exn + 'j)" where
  "load_jsons loads val =
     (case loads val of
        Inr v \<Rightarrow> ([], Inr v)
      | Inl error \<Rightarrow>
          ([\<lparr>level = ERROR,
             fmt = ''Unhandled exception while loading JSON: %r -- %r'',
             args = [Str val, Exc error]\<rparr>],
           Inl (DCOSException ''Error loading JSON.'')))"

section \<open>\<open>_hack_error_message_fix\<close>\<close>

text \<open>
  The class \<open>\s\<close> of a Python 3 \<open>str\<close> pattern, on the code points below 256: the ASCII
  whitespace, the separators \<open>0x1C\<close> to \<open>0x1F\<close>, \<open>0x85\<close> and \<open>0xA0\<close>.
\<close>

definition is_space :: "char \<Rightarrow> bool" where
  "is_space c =
     (c \<in> set [CHR 0x09, CHR 0x0A, CHR 0x0B, CHR 0x0C, CHR 0x0D, CHR 0x1C, CHR 0x1D,
                CHR 0x1E, CHR 0x1F, CHR 0x20, CHR 0x85, CHR 0xA0])"

text \<open>The character class \<open>[\[\(\{\s]\<close>.\<close>

definition opener :: "char \<Rightarrow> bool" where
  "opener c = (c = CHR ''['' \<or> c = CHR ''('' \<or> c = CHR ''{'' \<or> is_space c)"

text \<open>
  \<open>re.compile("^u'").sub("'", message)\<close>: without \<open>re.MULTILINE\<close> the anchor matches at the
  start of the string only, so at most one match is replaced.
\<close>

fun sub_leading :: "string \<Rightarrow> string" where
  "sub_leading (a # b # rest) =
     (if a = CHR ''u'' \<and> b = CHR 0x27 then CHR 0x27 # rest else a # b # rest)"
| "sub_leading s = s"

text \<open>
  \<open>re.compile("([\[\(\{\s])u'").sub("\g<1>'", s)\<close>: the scan goes left to right; at a match
  the three characters are replaced by the group and the quote and the scan goes on after
  the match, otherwise it moves one character on.
\<close>

fun sub_interior :: "string \<Rightarrow> string" where
  "sub_interior (c # a # b # rest) =
     (if opener c \<and> a = CHR ''u'' \<and> b = CHR 0x27 then c # CHR 0x27 # sub_interior rest
      else c # sub_interior (a # b # rest))"
| "sub_interior s = s"

definition hack_error_message_fix :: "string \<Rightarrow> string" where
  "hack_error_message_fix message = sub_interior (sub_leading message)"

text \<open>
  The words of the specification: an artifact marker is a \<open>u\<close> immediately before a single
  quote, at the start of the string or after a whitespace character, \<open>[\<close>, \<open>(\<close> or \<open>{\<close>;
  normalisation deletes the characters at the marker positions and no other.
\<close>

definition is_marker :: "string \<Rightarrow> nat \<Rightarrow> bool" where
  "is_marker s i =
     (Suc i < length s \<and> s ! i = CHR ''u'' \<and> s ! Suc i = CHR 0x27 \<and>
      (i = 0 \<or> opener (s ! (i - 1))))"

definition strip_markers :: "string \<Rightarrow> string" where
  "strip_markers s =
     map fst (filter (\<lambda>p. \<not> is_marker s (snd p)) (zip s [0..<length s]))"

definition has_marker :: "string \<Rightarrow> bool" where
  "has_marker s = list_ex (is_marker s) [0..<length s]"

text \<open>
  For the proofs, the same scan with its left context made explicit: \<open>b\<close> says whether a
  marker may begin at the head of the list (the head is the start of the string, or the
  character before it is in the class).
\<close>

definition marker_ctx :: "bool \<Rightarrow> string \<Rightarrow> nat \<Rightarrow> bool" where
  "marker_ctx b s i =
     (Suc i < length s \<and> s ! i = CHR ''u'' \<and> s ! Suc i = CHR 0x27 \<and>
      (if i = 0 then b else opener (s ! (i - 1))))"

fun strip_ctx :: "bool \<Rightarrow> string \<Rightarrow> string" where
  "strip_ctx b [] = []"
| "strip_ctx b (c # cs) =
     (if b \<and> c = CHR ''u'' \<and> cs \<noteq> [] \<and> hd cs = CHR 0x27 then strip_ctx (opener c) cs
      else c # strip_ctx (opener c) cs)"

section \<open>\<open>_format_validation_error\<close>\<close>

text \<open>
  A \<open>jsonschema\<close> validation error: its message, the absolute path (property names and
  array indices from the root of the document) and the offending value.
\<close>

datatype path_segment = is_key: Key string | is_index: Index int

record 'j validation_error =
  message :: string
  absolute_path :: "path_segment list"
  instance' :: 'j

text \<open>
  \<open>re.search("(.+) is a required property", s)\<close>. At a start position the group \<open>.+\<close> first
  takes all characters up to the next newline, then gives them back one at a time, down to
  one character, until the literal follows (\<open>backtrack n s\<close> tries the group lengths \<open>n\<close>,
  \<open>n - 1\<close>, ..., 1); the search tries the start positions from
  left to right and returns group 1 of the first match.
\<close>

definition required_literal :: string where
  "required_literal = '' is a required property''"

fun backtrack :: "nat \<Rightarrow> string \<Rightarrow> string option" where
  "backtrack 0 s = None"
| "backtrack (Suc n) s =
     (if prefix required_literal (drop (Suc n) s) then Some (take (Suc n) s)
      else backtrack n s)"

definition match_at :: "string \<Rightarrow> string option" where
  "match_at s = backtrack (length (takeWhile (\<lambda>c. c \<noteq> CHR 0x0A) s)) s"

fun re_search :: "string \<Rightarrow> string option" where
  "re_search [] = match_at []"
| "re_search (c # cs) =
     (case match_at (c # cs) of Some g \<Rightarrow> Some g | None \<Rightarrow> re_search cs)"

text \<open>
  \<open>'.'.join(error.absolute_path)\<close>: \<open>str.join\<close> raises \<open>TypeError\<close> when an item of the
  sequence is not a string.
\<close>

fun segment_strs :: "path_segment list \<Rightarrow> string list option" where
  "segment_strs [] = Some []"
| "segment_strs (Key k # segs) = map_option ((#) k) (segment_strs segs)"
| "segment_strs (Index i # segs) = None"

definition join_path :: "string \<Rightarrow> path_segment list \<Rightarrow> lib_exc + string" where
  "join_path sep segs =
     (case segment_strs segs of None \<Rightarrow> Inl TypeError | Some ks \<Rightarrow> Inr (py_join sep ks))"

text \<open>\<open>json.dumps\<close> is the codec of the standard library, a parameter of the model.\<close>

definition format_validation_error ::
  "('j \<Rightarrow> string) \<Rightarrow> 'j validation_error \<Rightarrow> exn + string" where
  "format_validation_error dumps error =
     (let error_message = hack_error_message_fix (message error)
      in case re_search error_message of
           Some group1 \<Rightarrow> Inr (''Error: missing required property '' @ group1 @ ''.'')
         | None \<Rightarrow>
             (let msg = ''Error: '' @ error_message @ ''\<newline>''
              in if length (absolute_path error) > 0
                 then (case join_path ''.'' (absolute_path error) of
                         Inl e \<Rightarrow> Inl (Lib e)
                       | Inr p \<Rightarrow>
                           Inr (msg @ ''Path: '' @ p @ ''\<newline>'' @
                                ''Value: '' @ dumps (instance' error)))
                 else Inr (msg @ ''Value: '' @ dumps (instance' error))))"

text \<open>
  The message of the engine for a missing required property: \<open>jsonschema\<close> builds it as
  \<open>"%r is a required property" % property\<close>, and \<open>%r\<close> of a name without quotes or
  escapes is the name between single quotes (behind the prefix \<open>u\<close> on Python 2).
\<close>

definition required_message :: "string \<Rightarrow> string" where
  "required_message property = [CHR 0x27] @ property @ [CHR 0x27] @ '' is a required property''"

section \<open>\<open>validate_json\<close>\<close>

text \<open>
  \<open>six.u\<close> is the identity on Python 3 strings, so the sort key is the cleaned message.
  \<open>sorted\<close> is stable; \<^const>\<open>sort_key\<close> is the stable insertion sort.
\<close>

definition sort_key_fn :: "'j validation_error \<Rightarrow> string" where
  "sort_key_fn ve = hack_error_message_fix (message ve)"

fun map_results :: "('a \<Rightarrow> exn + 'b) \<Rightarrow> 'a list \<Rightarrow> exn + 'b list" where
  "map_results f [] = Inr []"
| "map_results f (x # xs) =
     (case f x of
        Inl e \<Rightarrow> Inl e
      | Inr y \<Rightarrow> (case map_results f xs of Inl e \<Rightarrow> Inl e | Inr ys \<Rightarrow> Inr (y # ys)))"

text \<open>
  The validation engine (\<open>jsonschema.Draft4Validator(schema).iter_errors(instance)\<close>) is a
  parameter: it yields the list of errors or raises.
\<close>

definition validate_json ::
  "('j \<Rightarrow> 'j \<Rightarrow> lib_exc + 'j validation_error list) \<Rightarrow> ('j \<Rightarrow> string) \<Rightarrow> 'j \<Rightarrow> 'j
     \<Rightarrow> exn + string list" where
  "validate_json iter_errors dumps inst schema =
     (case iter_errors schema inst of
        Inl e \<Rightarrow> Inl (Lib e)
      | Inr validation_errors \<Rightarrow>
          map_results (format_validation_error dumps) (sort_key sort_key_fn validation_errors))"

text \<open>
  In the examples the offending values are strings without characters that need an
  escape; on them \<open>json.dumps\<close> puts the text between double quotes.
\<close>

definition dumps_string :: "string \<Rightarrow> string" where
  "dumps_string s = [CHR 0x22] @ s @ [CHR 0x22]"

section \<open>\<open>ServerRequest._req\<close>\<close>

text \<open>
  Keyword arguments are an association list from names to values; a value is a dictionary
  of strings (the headers) or anything else. \<open>dict.update\<close> overwrites key by key.
\<close>

type_synonym dict = "(string \<times> string) list"

datatype kwarg = Dict dict | Other string

type_synonym kwargs = "(string \<times> kwarg) list"

definition dict_update :: "dict \<Rightarrow> dict \<Rightarrow> dict" where
  "dict_update d other = fold (\<lambda>(k, v). AList.update k v) other d"

definition base_url :: string where
  "base_url = ''/v2/apps/''"

definition headers :: dict where
  "headers = [(''content-type'', ''application/json'')]"

text \<open>
  The module imports \<open>requests\<close> and nothing else: when \<open>_req\<close> runs, the global names it
  can read are \<open>requests\<close> and \<open>ServerRequest\<close>. Reading any other global name raises
  \<open>NameError\<close>. \<open>read_global name v\<close> is the read of \<open>name\<close>, where \<open>v\<close> is the value the name
  would have if the module bound it.
\<close>

definition module_names :: "string list" where
  "module_names = [''requests'', ''ServerRequest'']"

definition read_global :: "string \<Rightarrow> 'a \<Rightarrow> lib_exc + 'a" where
  "read_global name v = (if name \<in> set module_names then Inr v else Inl NameError)"

text \<open>Evaluation in sequence: the first exception raised ends it.\<close>

definition and_then :: "lib_exc + 'a \<Rightarrow> ('a \<Rightarrow> lib_exc + 'b) \<Rightarrow> lib_exc + 'b" where
  "and_then r f = (case r of Inl e \<Rightarrow> Inl e | Inr v \<Rightarrow> f v)"

text \<open>
  What lies outside the file: \<open>getattr(requests, method)\<close> (no function for a name the
  library does not have), the \<open>json()\<close> method of a response, and the values that
  \<open>urlparse.urljoin\<close>, \<open>config.current.url\<close>, \<open>config.current.host\<close> and
  \<open>MISSING_SERVER.format\<close> would have.
\<close>

record ('resp, 'j) http_env =
  attr :: "string \<Rightarrow> (string \<Rightarrow> kwargs \<Rightarrow> lib_exc + 'resp) option"
  json_of :: "'resp \<Rightarrow> lib_exc + 'j"
  urljoin :: "string \<Rightarrow> string \<Rightarrow> string"
  current_url :: string
  current_host :: string
  MISSING_SERVER :: "string \<Rightarrow> string"

text \<open>
  Lines 10 to 12: a missing \<open>headers\<close> argument becomes the empty dictionary, then the
  class's headers are written into it; a \<open>headers\<close> argument that is not a dictionary has
  no \<open>update\<close>.
\<close>

definition with_headers :: "kwargs \<Rightarrow> lib_exc + kwargs" where
  "with_headers kw =
     (let kw1 = (if map_of kw ''headers'' = None then AList.update ''headers'' (Dict []) kw
                 else kw)
      in case map_of kw1 ''headers'' of
           Some (Dict h) \<Rightarrow> Inr (AList.update ''headers'' (Dict (dict_update h headers)) kw1)
         | Some (Other x) \<Rightarrow> Inl AttributeError
         | None \<Rightarrow> Inl AttributeError)"

text \<open>Lines 14 to 16: \<open>if url:\<close> holds for a non-empty string.\<close>

definition path_parts :: "string option \<Rightarrow> string list" where
  "path_parts url =
     [base_url] @ (case url of None \<Rightarrow> [] | Some x \<Rightarrow> if x = [] then [] else [x])"

text \<open>
  Lines 18 and 19, in Python's order of evaluation: the function
  \<open>getattr(requests, method)\<close>, then its argument, which reads \<open>urlparse\<close> and then \<open>config\<close>, then the call,
  then \<open>json()\<close> on the response.
\<close>

definition try_body ::
  "('resp, 'j) http_env \<Rightarrow> string \<Rightarrow> string option \<Rightarrow> kwargs \<Rightarrow> lib_exc + 'j" where
  "try_body env method url kw =
     and_then (case attr env method of None \<Rightarrow> Inl AttributeError | Some f \<Rightarrow> Inr f) (\<lambda>f.
     and_then (read_global ''urlparse'' (urljoin env)) (\<lambda>join.
     and_then (read_global ''config'' (current_url env)) (\<lambda>base.
     and_then (f (join base (py_join ''/'' (path_parts url))) kw) (\<lambda>resp.
     json_of env resp))))"

text \<open>
  Line 23: \<open>log.fatal(MISSING_SERVER.format(config.current.host))\<close> reads \<open>log\<close>, then
  \<open>MISSING_SERVER\<close>, then \<open>config\<close>; the formatted text is logged without arguments and
  the method falls off its end, which gives \<open>None\<close>.
\<close>

definition on_connection_error ::
  "('resp, 'j) http_env \<Rightarrow> log_record list \<times> (exn + 'j option)" where
  "on_connection_error env =
     (case and_then (read_global ''log'' ()) (\<lambda>logger.
           and_then (read_global ''MISSING_SERVER'' (MISSING_SERVER env)) (\<lambda>template.
           and_then (read_global ''config'' (current_host env)) (\<lambda>host.
           Inr (template host)))) of
        Inl e \<Rightarrow> ([], Inl (Lib e))
      | Inr text \<Rightarrow> ([\<lparr>level = FATAL, fmt = text, args = []\<rparr>], Inr None))"

text \<open>
  The method: \<open>ValueError\<close> from the \<open>try\<close> block gives \<open>None\<close>, \<open>ConnectionError\<close> goes to
  the handler of line 23, any other exception propagates.
\<close>

definition req ::
  "('resp, 'j) http_env \<Rightarrow> string \<Rightarrow> string option \<Rightarrow> kwargs
     \<Rightarrow> log_record list \<times> (exn + 'j option)" where
  "req env method url kw =
     (case with_headers kw of
        Inl e \<Rightarrow> ([], Inl (Lib e))
      | Inr kw2 \<Rightarrow>
          (case try_body env method url kw2 of
             Inr v \<Rightarrow> ([], Inr (Some v))
           | Inl ValueError \<Rightarrow> ([], Inr None)
           | Inl ConnectionError \<Rightarrow> on_connection_error env
           | Inl e \<Rightarrow> ([], Inl (Lib e))))"

section \<open>Joining the report\<close>

lemma py_join_Cons: "py_join sep (x # xs) = x @ concat (map (\<lambda>e. sep @ e) xs)"
  by (induction xs arbitrary: x) auto

text \<open>
  C7. \<open>list_to_err\<close> joins the strings with the two-character separator newline, newline:
  the empty list gives the empty string, a non-empty list gives its first element followed
  by each further element behind a separator; the list of \<open>A\<close>, \<open>B\<close>, \<open>C\<close> gives \<open>A\<close>, two
  newlines, \<open>B\<close>, two newlines, \<open>C\<close>, and the singleton of \<open>A\<close> gives \<open>A\<close>.
\<close>

theorem list_to_err_join:
  "list_to_err [] = [] \<and>
   list_to_err (x # xs) = x @ concat (map (\<lambda>e. [CHR 0x0A, CHR 0x0A] @ e) xs) \<and>
   list_to_err [''A'', ''B'', ''C''] = ''A\<newline>\<newline>B\<newline>\<newline>C'' \<and>
   list_to_err [''A''] = ''A''"
  by (simp add: list_to_err_def py_join_Cons)

section \<open>Message normalisation\<close>

lemma opener_u [simp]: "\<not> opener CHR ''u''"
  by (simp add: opener_def is_space_def)

lemma opener_quote [simp]: "\<not> opener CHR 0x27"
  by (simp add: opener_def is_space_def)

lemma marker_ctx_Suc: "marker_ctx b (c # cs) (Suc j) = marker_ctx (opener c) cs j"
  by (cases j) (auto simp: marker_ctx_def)

lemma marker_ctx_0:
  "marker_ctx b (c # cs) 0 = (b \<and> c = CHR ''u'' \<and> cs \<noteq> [] \<and> hd cs = CHR 0x27)"
  by (cases cs) (auto simp: marker_ctx_def)

lemma filter_zip_shift:
  "map fst (filter (\<lambda>p. P (snd p)) (zip cs (map Suc ns))) =
   map fst (filter (\<lambda>p. P (Suc (snd p))) (zip cs ns))"
  by (induction cs arbitrary: ns) (auto simp: zip_Cons1 split: list.splits)

lemma strip_ctx_positions:
  "strip_ctx b s = map fst (filter (\<lambda>p. \<not> marker_ctx b s (snd p)) (zip s [0..<length s]))"
proof (induction s arbitrary: b)
  case Nil
  show ?case by simp
next
  case (Cons c cs)
  have up: "[0..<length (c # cs)] = 0 # map Suc [0..<length cs]"
    by (simp add: upt_conv_Cons map_Suc_upt del: upt_Suc)
  have tl_eq: "map fst (filter (\<lambda>p. \<not> marker_ctx b (c # cs) (snd p)) (zip cs (map Suc [0..<length cs])))
        = strip_ctx (opener c) cs"
    unfolding filter_zip_shift [of "\<lambda>i. \<not> marker_ctx b (c # cs) i"] marker_ctx_Suc
    using Cons.IH [of "opener c"] by simp
  show ?case
  proof (cases "marker_ctx b (c # cs) 0")
    case True
    then have "strip_ctx b (c # cs) = strip_ctx (opener c) cs"
      by (simp add: marker_ctx_0)
    then show ?thesis
      unfolding up using True tl_eq by simp
  next
    case False
    then have "strip_ctx b (c # cs) = c # strip_ctx (opener c) cs"
      by (simp add: marker_ctx_0)
    then show ?thesis
      unfolding up using False tl_eq by simp
  qed
qed

lemma is_marker_ctx: "is_marker s = marker_ctx True s"
  by (auto simp: is_marker_def marker_ctx_def fun_eq_iff)

lemma strip_markers_ctx: "strip_markers s = strip_ctx True s"
  by (simp add: strip_markers_def strip_ctx_positions is_marker_ctx)

lemma sub_interior_ctx: "sub_interior s = strip_ctx False s"
  by (induction s rule: sub_interior.induct) auto

lemma sub_leading_ctx: "strip_ctx False (sub_leading s) = strip_ctx True s"
  by (induction s rule: sub_leading.induct) auto

lemma hack_strip_markers: "hack_error_message_fix s = strip_markers s"
  by (simp add: hack_error_message_fix_def sub_interior_ctx sub_leading_ctx strip_markers_ctx)

lemma sub_leading_marker: "sub_leading s = (if is_marker s 0 then tl s else s)"
  by (induction s rule: sub_leading.induct) (auto simp: is_marker_def)

lemma strip_ctx_False_Nil: "strip_ctx False cs = [] \<longleftrightarrow> cs = []"
  by (cases cs) auto

lemma strip_ctx_False_hd: "cs \<noteq> [] \<Longrightarrow> hd (strip_ctx False cs) = hd cs"
  by (cases cs) auto

lemma strip_ctx_idem: "strip_ctx b (strip_ctx b s) = strip_ctx b s"
proof (induction s arbitrary: b)
  case Nil
  show ?case by simp
next
  case (Cons c cs)
  show ?case
  proof (cases "b \<and> c = CHR ''u'' \<and> cs \<noteq> [] \<and> hd cs = CHR 0x27")
    case True
    then obtain cs' where cs: "cs = CHR 0x27 # cs'" by (cases cs) auto
    have "strip_ctx b (c # cs) = CHR 0x27 # strip_ctx False cs'"
      using True cs by simp
    moreover have "strip_ctx False (CHR 0x27 # strip_ctx False cs') = CHR 0x27 # strip_ctx False cs'"
      using Cons.IH [of False] cs by simp
    ultimately show ?thesis by simp
  next
    case False
    have step: "strip_ctx b (c # cs) = c # strip_ctx (opener c) cs"
      using False by simp
    have nomark: "\<not> (b \<and> c = CHR ''u'' \<and> strip_ctx (opener c) cs \<noteq> [] \<and>
                     hd (strip_ctx (opener c) cs) = CHR 0x27)"
    proof (cases "b \<and> c = CHR ''u''")
      case True
      then have "opener c = False" by simp
      then show ?thesis
        using False True by (auto simp: strip_ctx_False_Nil strip_ctx_False_hd)
    next
      case False
      then show ?thesis by blast
    qed
    define Y where "Y = strip_ctx (opener c) cs"
    have "strip_ctx b (c # Y) = c # strip_ctx (opener c) Y"
      using nomark unfolding Y_def [symmetric] by simp
    also have "strip_ctx (opener c) Y = Y"
      unfolding Y_def by (rule Cons.IH)
    finally show ?thesis
      unfolding step Y_def [symmetric] .
  qed
qed

lemma hack_idem: "hack_error_message_fix (hack_error_message_fix s) = hack_error_message_fix s"
  by (simp add: hack_strip_markers strip_markers_ctx strip_ctx_idem)

lemma no_marker_strip: "\<not> has_marker s \<Longrightarrow> strip_markers s = s"
proof -
  assume h: "\<not> has_marker s"
  have "filter (\<lambda>p. \<not> is_marker s (snd p)) (zip s [0..<length s]) = zip s [0..<length s]"
    using h by (auto simp: has_marker_def list_ex_iff filter_id_conv dest: set_zip_rightD)
  then show ?thesis by (simp add: strip_markers_def)
qed

text \<open>
  C4. Normalisation deletes from the message exactly the characters at the marker
  positions (a \<open>u\<close> immediately before a single quote, at the start of the string or after a
  whitespace character, \<open>[\<close>, \<open>(\<close> or \<open>{\<close>) and keeps every other character in order; it is
  the interior pass applied to the result of the leading pass, and the leading pass drops
  the first character exactly when position 0 is a marker.
\<close>

theorem hack_error_message_fix_markers:
  "hack_error_message_fix s = strip_markers s \<and>
   hack_error_message_fix s = sub_interior (sub_leading s) \<and>
   sub_leading s = (if is_marker s 0 then tl s else s)"
  using hack_strip_markers [of s] sub_leading_marker [of s]
  by (simp add: hack_error_message_fix_def)

theorem hack_error_message_fix_markers_witness:
  "hack_error_message_fix ''u'a' and [u'b', u'c'] (u'd') menu'x' uu'y'' =
     '''a' and ['b', 'c'] ('d') menu'x' uu'y''"
proof -
  have "strip_markers ''u'a' and [u'b', u'c'] (u'd') menu'x' uu'y'' =
          '''a' and ['b', 'c'] ('d') menu'x' uu'y''"
    by code_simp
  then show ?thesis
    using hack_error_message_fix_markers [of "''u'a' and [u'b', u'c'] (u'd') menu'x' uu'y''"]
    by simp
qed

lemma strip_markers_fixed_no_marker:
  assumes "strip_markers t = t"
  shows "\<not> has_marker t"
proof
  assume "has_marker t"
  then obtain i where i: "i < length t" "is_marker t i"
    by (auto simp: has_marker_def list_ex_iff)
  then have "(t ! i, i) \<in> set (zip t [0..<length t])"
    by (auto simp: set_zip)
  then have "length (filter (\<lambda>p. \<not> is_marker t (snd p)) (zip t [0..<length t]))
               < length (zip t [0..<length t])"
    using i(2) by (intro length_filter_less [where x = "(t ! i, i)"]) auto
  then have "length (strip_markers t) < length t"
    by (simp add: strip_markers_def)
  with assms show False by simp
qed

text \<open>
  C8. A message without an artifact marker is returned unchanged; the result of
  normalisation has no marker, so normalisation is idempotent.
\<close>

theorem hack_error_message_fix_clean:
  "(\<not> has_marker s \<longrightarrow> hack_error_message_fix s = s) \<and>
   \<not> has_marker (hack_error_message_fix s) \<and>
   hack_error_message_fix (hack_error_message_fix s) = hack_error_message_fix s"
proof -
  have "strip_markers (hack_error_message_fix s) = hack_error_message_fix s"
    using hack_idem [of s] by (simp add: hack_strip_markers)
  then have "\<not> has_marker (hack_error_message_fix s)"
    by (rule strip_markers_fixed_no_marker)
  then show ?thesis
    using hack_idem [of s] no_marker_strip [of s] by (simp add: hack_strip_markers)
qed

theorem hack_error_message_fix_clean_witness:
  "\<not> has_marker '''old' is not of type 'integer', menu'x' '' \<and>
   hack_error_message_fix '''old' is not of type 'integer', menu'x' '' =
     '''old' is not of type 'integer', menu'x' ''"
proof -
  have h: "\<not> has_marker '''old' is not of type 'integer', menu'x' ''"
    by code_simp
  then show ?thesis
    using hack_error_message_fix_clean [of "'''old' is not of type 'integer', menu'x' ''"]
    by simp
qed

section \<open>Formatting one error\<close>

lemma backtrack_whole:
  assumes "X \<noteq> []" "length X \<le> n"
  shows "backtrack n (X @ required_literal) = Some X"
  using assms
proof (induction n)
  case 0
  then show ?case by simp
next
  case (Suc n)
  show ?case
  proof (cases "Suc n = length X")
    case True
    have "drop (Suc n) (X @ required_literal) = required_literal"
      using True by simp
    moreover have "take (Suc n) (X @ required_literal) = X"
      using True by simp
    ultimately show ?thesis
      by (simp only: backtrack.simps prefix_order.order_refl if_True)
  next
    case False
    with Suc.prems have gt: "length X \<le> n" by simp
    have pos: "0 < length required_literal"
      by (simp add: required_literal_def)
    have "length (drop (Suc n) (X @ required_literal)) =
            length X + length required_literal - Suc n"
      by simp
    with pos gt have "length (drop (Suc n) (X @ required_literal)) < length required_literal"
      by arith
    then have "\<not> prefix required_literal (drop (Suc n) (X @ required_literal))"
      by (metis prefix_length_le not_le)
    then have "backtrack (Suc n) (X @ required_literal) = backtrack n (X @ required_literal)"
      by (simp only: backtrack.simps if_False)
    then show ?thesis
      using Suc.IH [OF Suc.prems(1) gt] by simp
  qed
qed

lemma match_at_whole:
  assumes "X \<noteq> []" "CHR 0x0A \<notin> set X"
  shows "match_at (X @ required_literal) = Some X"
proof -
  have "takeWhile (\<lambda>c. c \<noteq> CHR 0x0A) (X @ required_literal) =
          X @ takeWhile (\<lambda>c. c \<noteq> CHR 0x0A) required_literal"
    using assms(2) by (intro takeWhile_append2) auto
  then have "length X \<le> length (takeWhile (\<lambda>c. c \<noteq> CHR 0x0A) (X @ required_literal))"
    by simp
  then show ?thesis
    unfolding match_at_def by (rule backtrack_whole [OF assms(1)])
qed

lemma re_search_whole:
  assumes "X \<noteq> []" "CHR 0x0A \<notin> set X"
  shows "re_search (X @ required_literal) = Some X"
proof -
  obtain c cs where X: "X = c # cs" using assms(1) by (cases X) auto
  have "re_search ((c # cs) @ required_literal) = Some (c # cs)"
    using match_at_whole [OF assms] X by simp
  then show ?thesis using X by simp
qed


lemma format_required:
  "re_search (hack_error_message_fix (message e)) = Some X \<Longrightarrow>
   format_validation_error dumps e = Inr (''Error: missing required property '' @ X @ ''.'')"
  by (simp add: format_validation_error_def)

lemma segment_strs_None: "segment_strs segs = None \<longleftrightarrow> list_ex is_index segs"
  by (induction segs rule: segment_strs.induct) auto

lemma segment_strs_Some:
  "segment_strs segs = Some ks \<Longrightarrow> segs = map Key ks"
  by (induction segs arbitrary: ks rule: segment_strs.induct) auto

lemma format_generic:
  assumes "re_search (hack_error_message_fix (message e)) = None"
    and "segment_strs (absolute_path e) = Some ks"
  shows "format_validation_error dumps e =
     Inr (''Error: '' @ hack_error_message_fix (message e) @ ''\<newline>'' @
          (if ks = [] then [] else ''Path: '' @ py_join ''.'' ks @ ''\<newline>'') @
          ''Value: '' @ dumps (instance' e))"
proof (cases "absolute_path e = []")
  case True
  then have "ks = []" using segment_strs_Some [OF assms(2)] by simp
  then show ?thesis
    using assms(1) True by (simp add: format_validation_error_def)
next
  case False
  then have "ks \<noteq> []" using segment_strs_Some [OF assms(2)] by auto
  then show ?thesis
    using assms False by (simp add: format_validation_error_def join_path_def)
qed

lemma format_index:
  assumes "re_search (hack_error_message_fix (message e)) = None"
    and "list_ex is_index (absolute_path e)"
  shows "format_validation_error dumps e = Inl (Lib TypeError)"
proof -
  have "segment_strs (absolute_path e) = None"
    using assms(2) by (simp add: segment_strs_None)
  moreover have "absolute_path e \<noteq> []"
    using assms(2) by auto
  ultimately show ?thesis
    using assms(1) by (simp add: format_validation_error_def join_path_def)
qed

text \<open>
  C3, as stated, fails in its example. For a schema requiring the property \<open>name\<close> and an
  instance without it, the engine's message holds the name between single quotes, and so
  does the entry: it is not the entry with the name between double quotes.
\<close>

theorem format_validation_error_required_name_counterexample:
  "format_validation_error dumps_string
     \<lparr>message = required_message ''name'', absolute_path = [], instance' = ''{}''\<rparr>
   = Inr ''Error: missing required property 'name'.'' \<and>
   format_validation_error dumps_string
     \<lparr>message = required_message ''name'', absolute_path = [], instance' = ''{}''\<rparr>
   \<noteq> Inr ''Error: missing required property \"name\".''"
  by code_simp

text \<open>
  C3, amended. When the search for the required-property pattern in the cleaned message
  succeeds with group \<open>X\<close>, the entry is exactly \<open>Error: missing required property X.\<close>,
  with no Path line and no Value line; the search succeeds with group \<open>X\<close> on every cleaned
  message that is a non-empty, newline-free \<open>X\<close> followed by \<open> is a required property\<close>.
  For a schema requiring the property \<open>name\<close> and an instance without it, where the engine's
  message is the name between single quotes (with or without the prefix \<open>u\<close>) followed by
  \<open> is a required property\<close>, the entry is \<open>Error: missing required property 'name'.\<close>
\<close>

theorem format_validation_error_required:
  "(re_search (hack_error_message_fix (message e)) = Some X \<longrightarrow>
      format_validation_error dumps e =
        Inr (''Error: missing required property '' @ X @ ''.'')) \<and>
   (X \<noteq> [] \<and> CHR 0x0A \<notin> set X \<and>
    hack_error_message_fix (message e) = X @ '' is a required property'' \<longrightarrow>
      format_validation_error dumps e =
        Inr (''Error: missing required property '' @ X @ ''.'')) \<and>
   (message e = required_message ''name'' \<or> message e = ''u'' @ required_message ''name'' \<longrightarrow>
      format_validation_error dumps e = Inr ''Error: missing required property 'name'.'')"
proof (intro conjI impI)
  assume "re_search (hack_error_message_fix (message e)) = Some X"
  then show "format_validation_error dumps e =
      Inr (''Error: missing required property '' @ X @ ''.'')"
    by (rule format_required)
next
  assume h: "X \<noteq> [] \<and> CHR 0x0A \<notin> set X \<and>
    hack_error_message_fix (message e) = X @ '' is a required property''"
  then have "re_search (hack_error_message_fix (message e)) = Some X"
    using re_search_whole [of X] by (simp add: required_literal_def)
  then show "format_validation_error dumps e =
      Inr (''Error: missing required property '' @ X @ ''.'')"
    by (rule format_required)
next
  assume m: "message e = required_message ''name'' \<or>
             message e = ''u'' @ required_message ''name''"
  have a: "re_search (hack_error_message_fix (required_message ''name''))
             = Some ('''name'' @ [CHR 0x27])"
    by code_simp
  have b: "re_search (hack_error_message_fix (''u'' @ required_message ''name''))
             = Some ('''name'' @ [CHR 0x27])"
    by code_simp
  have "re_search (hack_error_message_fix (message e)) = Some ('''name'' @ [CHR 0x27])"
    using m a b by auto
  then have "format_validation_error dumps e =
      Inr (''Error: missing required property '' @ ('''name'' @ [CHR 0x27]) @ ''.'')"
    by (rule format_required)
  then show "format_validation_error dumps e =
      Inr ''Error: missing required property 'name'.''"
    by simp
qed

theorem format_validation_error_required_witness:
  "format_validation_error dumps_string
     \<lparr>message = ''u'' @ required_message ''name'', absolute_path = [],
      instance' = ''{}''\<rparr>
   = Inr ''Error: missing required property 'name'.'' \<and>
   format_validation_error dumps_string
     \<lparr>message = ''u'id' is a required property'', absolute_path = [Key ''app''],
      instance' = ''{}''\<rparr>
   = Inr ''Error: missing required property 'id'.''"
proof -
  have c2: "re_search (hack_error_message_fix ''u'id' is a required property'') =
              Some ('''id'' @ [CHR 0x27])"
    by code_simp
  have "format_validation_error dumps_string
     \<lparr>message = ''u'' @ required_message ''name'', absolute_path = [],
      instance' = ''{}''\<rparr>
   = Inr ''Error: missing required property 'name'.''"
    using format_validation_error_required
      [of "\<lparr>message = ''u'' @ required_message ''name'', absolute_path = [],
            instance' = ''{}''\<rparr>" "[]" dumps_string]
    by simp
  moreover have "format_validation_error dumps_string
     \<lparr>message = ''u'id' is a required property'', absolute_path = [Key ''app''],
      instance' = ''{}''\<rparr>
   = Inr (''Error: missing required property '' @ ('''id'' @ [CHR 0x27]) @ ''.'')"
    using format_validation_error_required
      [of "\<lparr>message = ''u'id' is a required property'', absolute_path = [Key ''app''],
            instance' = ''{}''\<rparr>" "'''id'' @ [CHR 0x27]" dumps_string] c2
    by simp
  ultimately show ?thesis by simp
qed

text \<open>
  C10. For an error whose cleaned message is not a required-property message: when the
  absolute path has a segment that is not a string (an array index), joining the path
  raises \<open>TypeError\<close> and no entry is produced; when every segment is a string, the entry
  is produced, with the Path line made of the segments joined by a dot.
\<close>

theorem format_validation_error_path_segments:
  assumes "re_search (hack_error_message_fix (message e)) = None"
  shows "(list_ex is_index (absolute_path e) \<longrightarrow>
            format_validation_error dumps e = Inl (Lib TypeError)) \<and>
         (\<not> list_ex is_index (absolute_path e) \<longrightarrow>
            (\<exists>ks. absolute_path e = map Key ks \<and>
               format_validation_error dumps e =
                 Inr (''Error: '' @ hack_error_message_fix (message e) @ ''\<newline>'' @
                      (if ks = [] then [] else ''Path: '' @ py_join ''.'' ks @ ''\<newline>'') @
                      ''Value: '' @ dumps (instance' e))))"
proof (intro conjI impI)
  assume "list_ex is_index (absolute_path e)"
  with assms show "format_validation_error dumps e = Inl (Lib TypeError)"
    by (rule format_index)
next
  assume "\<not> list_ex is_index (absolute_path e)"
  then obtain ks where ks: "segment_strs (absolute_path e) = Some ks"
    using segment_strs_None [of "absolute_path e"] by auto
  show "\<exists>ks. absolute_path e = map Key ks \<and>
          format_validation_error dumps e =
            Inr (''Error: '' @ hack_error_message_fix (message e) @ ''\<newline>'' @
                 (if ks = [] then [] else ''Path: '' @ py_join ''.'' ks @ ''\<newline>'') @
                 ''Value: '' @ dumps (instance' e))"
    using segment_strs_Some [OF ks] format_generic [OF assms ks] by blast
qed

theorem format_validation_error_path_segments_witness:
  "format_validation_error dumps_string
     \<lparr>message = ''u'x' is not of type u'integer'' @ [CHR 0x27],
      absolute_path = [Key ''ports'', Index 0], instance' = ''x''\<rparr>
   = Inl (Lib TypeError)"
proof -
  have n: "re_search (hack_error_message_fix (''u'x' is not of type u'integer'' @ [CHR 0x27]))
             = None"
    by code_simp
  show ?thesis
    using format_validation_error_path_segments
      [of "\<lparr>message = ''u'x' is not of type u'integer'' @ [CHR 0x27],
             absolute_path = [Key ''ports'', Index 0], instance' = ''x''\<rparr>" dumps_string] n
    by simp
qed

text \<open>
  C2, at an error of an array element. The schema \<open>{"type": "array", "items": {"type":
  "integer"}}\<close> and the instance \<open>["x"]\<close> give an error with the path \<open>[0]\<close>: the cleaned
  message is not a required-property message, and formatting raises \<open>TypeError\<close> instead of
  returning the entry with the line \<open>Path: 0\<close>.
\<close>

theorem format_validation_error_index_raises:
  "re_search (hack_error_message_fix (''u'x' is not of type u'integer'' @ [CHR 0x27])) = None \<and>
   format_validation_error dumps_string
     \<lparr>message = ''u'x' is not of type u'integer'' @ [CHR 0x27],
      absolute_path = [Index 0], instance' = ''x''\<rparr>
   = Inl (Lib TypeError)"
  by code_simp

section \<open>Sorting the report\<close>

lemma map_results_Inr:
  "map_results f xs = Inr out \<Longrightarrow> map f xs = map Inr out"
  by (induction xs arbitrary: out) (auto split: sum.splits)

lemma filter_key_distinct:
  "distinct (map f zs) \<Longrightarrow> k \<in> set zs \<Longrightarrow> filter (\<lambda>x. f k = f x) zs = [k]"
proof (induction zs)
  case Nil
  then show ?case by simp
next
  case (Cons z zs)
  show ?case
  proof (cases "k = z")
    case True
    have "filter (\<lambda>x. f z = f x) zs = []"
      using Cons.prems(1) by (auto simp: filter_empty_conv)
    then show ?thesis using True by simp
  next
    case False
    then have "k \<in> set zs" using Cons.prems(2) by simp
    moreover have "f k \<noteq> f z"
    proof
      assume "f k = f z"
      then have "f z \<in> f ` set zs" using \<open>k \<in> set zs\<close> by (metis imageI)
      then show False using Cons.prems(1) by simp
    qed
    ultimately show ?thesis
      using Cons.IH Cons.prems(1) by simp
  qed
qed

lemma sort_key_permutation:
  fixes f :: "'a \<Rightarrow> 'k::linorder"
  assumes "mset ves' = mset ves" "distinct (map f ves)"
  shows "sort_key f ves' = sort_key f ves"
proof (rule properties_for_sort_key)
  show "mset (sort_key f ves) = mset ves'"
    using assms(1) by simp
  show "sorted (map f (sort_key f ves))"
    by (rule sorted_sort_key)
  have d': "distinct (map f ves')"
    using assms by (metis distinct_map mset_eq_setD mset_eq_imp_distinct_iff)
  have ds: "distinct (map f (sort_key f ves))"
    using assms(2) by (metis distinct_map mset_eq_setD mset_eq_imp_distinct_iff mset_sort)
  fix k assume k: "k \<in> set (sort_key f ves)"
  then have "k \<in> set ves'"
    using assms(1) by (metis mset_eq_setD set_sort)
  then show "filter (\<lambda>x. f k = f x) (sort_key f ves) = filter (\<lambda>x. f k = f x) ves'"
    using filter_key_distinct [OF ds k] filter_key_distinct [OF d'] by simp
qed

lemma sorted_precedes:
  fixes ks :: "'k::linorder list"
  assumes "sorted ks" "i < length ks" "j < length ks" "ks ! i < ks ! j"
  shows "i < j"
proof (rule ccontr)
  assume "\<not> i < j"
  then have "j \<le> i" by simp
  then have "ks ! j \<le> ks ! i"
    using assms(1,2) by (simp add: sorted_iff_nth_mono)
  with assms(4) show False by simp
qed

text \<open>
  C1, as stated, fails when two errors have the same cleaned message: the sort is stable,
  so they stay in the engine's order. For the schema with integer properties \<open>a\<close> and \<open>b\<close>
  and the instance with the text \<open>x\<close> at both, the engine's two orders give two reports.
\<close>

theorem validate_json_engine_order_counterexample:
  "mset [\<lparr>message = ''u'x' is not of type u'integer'' @ [CHR 0x27],
           absolute_path = [Key ''a''], instance' = ''x''\<rparr>,
         \<lparr>message = ''u'x' is not of type u'integer'' @ [CHR 0x27],
           absolute_path = [Key ''b''], instance' = ''x''\<rparr>]
   = mset [\<lparr>message = ''u'x' is not of type u'integer'' @ [CHR 0x27],
             absolute_path = [Key ''b''], instance' = ''x''\<rparr>,
           \<lparr>message = ''u'x' is not of type u'integer'' @ [CHR 0x27],
             absolute_path = [Key ''a''], instance' = ''x''\<rparr>] \<and>
   validate_json
     (\<lambda>schema inst. Inr
        [\<lparr>message = ''u'x' is not of type u'integer'' @ [CHR 0x27],
           absolute_path = [Key ''a''], instance' = ''x''\<rparr>,
         \<lparr>message = ''u'x' is not of type u'integer'' @ [CHR 0x27],
           absolute_path = [Key ''b''], instance' = ''x''\<rparr>])
     dumps_string ''{a: x, b: x}'' ''{properties: {a: integer, b: integer}}''
   \<noteq>
   validate_json
     (\<lambda>schema inst. Inr
        [\<lparr>message = ''u'x' is not of type u'integer'' @ [CHR 0x27],
           absolute_path = [Key ''b''], instance' = ''x''\<rparr>,
         \<lparr>message = ''u'x' is not of type u'integer'' @ [CHR 0x27],
           absolute_path = [Key ''a''], instance' = ''x''\<rparr>])
     dumps_string ''{a: x, b: x}'' ''{properties: {a: integer, b: integer}}''"
proof -
  have "add_mset (A::string validation_error) {#B#} = add_mset B {#A#}" for A B
    by (rule add_mset_commute)
  moreover have "validate_json
     (\<lambda>schema inst. Inr
        [\<lparr>message = ''u'x' is not of type u'integer'' @ [CHR 0x27],
           absolute_path = [Key ''a''], instance' = ''x''\<rparr>,
         \<lparr>message = ''u'x' is not of type u'integer'' @ [CHR 0x27],
           absolute_path = [Key ''b''], instance' = ''x''\<rparr>])
     dumps_string ''{a: x, b: x}'' ''{properties: {a: integer, b: integer}}''
     = Inr [''Error: 'x' is not of type 'integer'\<newline>Path: a\<newline>Value: \"x\"'',
            ''Error: 'x' is not of type 'integer'\<newline>Path: b\<newline>Value: \"x\"'']"
    by code_simp
  moreover have "validate_json
     (\<lambda>schema inst. Inr
        [\<lparr>message = ''u'x' is not of type u'integer'' @ [CHR 0x27],
           absolute_path = [Key ''b''], instance' = ''x''\<rparr>,
         \<lparr>message = ''u'x' is not of type u'integer'' @ [CHR 0x27],
           absolute_path = [Key ''a''], instance' = ''x''\<rparr>])
     dumps_string ''{a: x, b: x}'' ''{properties: {a: integer, b: integer}}''
     = Inr [''Error: 'x' is not of type 'integer'\<newline>Path: b\<newline>Value: \"x\"'',
            ''Error: 'x' is not of type 'integer'\<newline>Path: a\<newline>Value: \"x\"'']"
    by code_simp
  ultimately show ?thesis by simp
qed

text \<open>
  C1, amended. When the engine yields the errors \<open>ves\<close> and \<open>validate_json\<close> returns \<open>out\<close>,
  then \<open>out\<close> lists the formatted entries of a rearrangement \<open>es\<close> of \<open>ves\<close> that is ascending
  in the cleaned message (code-point order): an error with a smaller cleaned message comes
  before one with a larger; errors with the same cleaned message keep the engine's order;
  and when the cleaned messages of \<open>ves\<close> are pairwise distinct, every engine that yields
  the same errors in another order gives the same \<open>out\<close>.
\<close>

theorem validate_json_sorted_stable:
  assumes eng: "iter_errors schema inst = Inr ves"
    and res: "validate_json iter_errors dumps inst schema = Inr out"
  shows "\<exists>es. mset es = mset ves \<and>
           map (format_validation_error dumps) es = map Inr out \<and>
           sorted (map sort_key_fn es) \<and>
           (\<forall>i j. i < length es \<and> j < length es \<and>
                  sort_key_fn (es ! i) < sort_key_fn (es ! j) \<longrightarrow> i < j) \<and>
           (\<forall>k. filter (\<lambda>e. sort_key_fn e = k) es = filter (\<lambda>e. sort_key_fn e = k) ves) \<and>
           (\<forall>iter_errors' ves'.
              iter_errors' schema inst = Inr ves' \<and> mset ves' = mset ves \<and>
              distinct (map sort_key_fn ves) \<longrightarrow>
              validate_json iter_errors' dumps inst schema = Inr out)"
proof -
  define es where "es = sort_key sort_key_fn ves"
  have run: "map_results (format_validation_error dumps) es = Inr out"
    using eng res by (simp add: validate_json_def es_def)
  have srt: "sorted (map sort_key_fn es)"
    unfolding es_def by (rule sorted_sort_key)
  have prec: "i < j"
    if "i < length es \<and> j < length es \<and> sort_key_fn (es ! i) < sort_key_fn (es ! j)"
    for i j
    using sorted_precedes [OF srt, of i j] that by simp
  have stable: "filter (\<lambda>e. sort_key_fn e = k) es = filter (\<lambda>e. sort_key_fn e = k) ves"
    for k
    unfolding es_def by (rule sort_key_stable)
  have perm: "validate_json iter_errors' dumps inst schema = Inr out"
    if "iter_errors' schema inst = Inr ves' \<and> mset ves' = mset ves \<and>
        distinct (map sort_key_fn ves)"
    for iter_errors' ves'
  proof -
    have "sort_key sort_key_fn ves' = es"
      unfolding es_def using that by (intro sort_key_permutation) simp_all
    then show ?thesis
      using that run by (simp add: validate_json_def)
  qed
  have "mset es = mset ves"
    by (simp add: es_def)
  moreover have "map (format_validation_error dumps) es = map Inr out"
    using run by (rule map_results_Inr)
  ultimately show ?thesis
    using srt prec stable perm by blast
qed

theorem validate_json_sorted_stable_witness:
  "validate_json
     (\<lambda>schema inst. Inr
        [\<lparr>message = ''u'x' is not of type u'integer'' @ [CHR 0x27],
           absolute_path = [Key ''age''], instance' = ''x''\<rparr>,
         \<lparr>message = ''u'name' is a required property'',
           absolute_path = [], instance' = ''{}''\<rparr>])
     dumps_string ''instance'' ''schema''
   = Inr [''Error: missing required property 'name'.'',
          ''Error: 'x' is not of type 'integer'\<newline>Path: age\<newline>Value: \"x\"''] \<and>
   validate_json
     (\<lambda>schema inst. Inr
        [\<lparr>message = ''u'name' is a required property'',
           absolute_path = [], instance' = ''{}''\<rparr>,
         \<lparr>message = ''u'x' is not of type u'integer'' @ [CHR 0x27],
           absolute_path = [Key ''age''], instance' = ''x''\<rparr>])
     dumps_string ''instance'' ''schema''
   = Inr [''Error: missing required property 'name'.'',
          ''Error: 'x' is not of type 'integer'\<newline>Path: age\<newline>Value: \"x\"'']"
proof -
  define e1 :: "string validation_error" where
    "e1 = \<lparr>message = ''u'x' is not of type u'integer'' @ [CHR 0x27],
           absolute_path = [Key ''age''], instance' = ''x''\<rparr>"
  define e2 :: "string validation_error" where
    "e2 = \<lparr>message = ''u'name' is a required property'',
           absolute_path = [], instance' = ''{}''\<rparr>"
  define out where
    "out = [''Error: missing required property 'name'.'',
            ''Error: 'x' is not of type 'integer'\<newline>Path: age\<newline>Value: \"x\"'']"
  have first: "validate_json (\<lambda>schema inst. Inr [e1, e2]) dumps_string ''instance'' ''schema''
                 = Inr out"
    unfolding e1_def e2_def out_def by code_simp
  have keys: "distinct (map sort_key_fn [e1, e2])"
    unfolding e1_def e2_def by code_simp
  have sw: "mset [e2, e1] = mset [e1, e2]"
    by (simp add: add_mset_commute)
  have allp: "\<forall>iter_errors' ves'.
          iter_errors' ''schema'' ''instance'' = Inr ves' \<and> mset ves' = mset [e1, e2] \<and>
          distinct (map sort_key_fn [e1, e2]) \<longrightarrow>
          validate_json iter_errors' dumps_string ''instance'' ''schema'' = Inr out"
    using validate_json_sorted_stable
      [of "\<lambda>schema inst. Inr [e1, e2]" "''schema''" "''instance''" "[e1, e2]" dumps_string out,
       OF refl first]
    by (elim exE conjE)
  have "validate_json (\<lambda>schema inst. Inr [e2, e1]) dumps_string ''instance'' ''schema''
               = Inr out"
    using allp [rule_format, of "\<lambda>schema inst. Inr [e2, e1]" "[e2, e1]"] sw keys by simp
  with first show ?thesis
    unfolding e1_def e2_def out_def by simp
qed

section \<open>Reading files and parsing text\<close>








section \<open>The two paths on text that is not JSON\<close>

lemma try_body_raises:
  "try_body env verb url kw =
     (case attr env verb of None \<Rightarrow> Inl AttributeError | Some f \<Rightarrow> Inl NameError)"
  by (simp add: try_body_def and_then_def read_global_def module_names_def
           split: option.splits)

lemma req_raises:
  "snd (req env verb url kw) = Inl (Lib AttributeError) \<or>
   snd (req env verb url kw) = Inl (Lib NameError)"
proof (cases "with_headers kw")
  case (Inl e)
  then have "e = AttributeError"
    by (auto simp: with_headers_def Let_def split: option.splits kwarg.splits if_splits)
  with Inl show ?thesis by (simp add: req_def)
next
  case (Inr kw2)
  then show ?thesis
    by (cases "attr env verb") (simp_all add: req_def try_body_raises)
qed

text \<open>
  C9, at a request whose response is not JSON. No call of \<open>_req\<close> returns: the method
  raises \<open>AttributeError\<close> or \<open>NameError\<close>, so it never gives \<open>None\<close>. With a server that
  answers \<open>get\<close> with an HTML page, on which \<open>json()\<close> raises \<open>ValueError\<close>, the read of
  \<open>urlparse\<close> raises \<open>NameError\<close> before the request is made, where the handler of
  \<open>ValueError\<close> was to return \<open>None\<close>; \<open>load_jsons\<close> on the same page raises
  \<open>DCOSException\<close>.
\<close>

theorem req_never_returns:
  "snd (req env verb url kw) \<noteq> Inr r \<and>
   req \<lparr>attr = (\<lambda>name. if name = ''get'' then Some (\<lambda>target kw. Inr ''<html>'') else None),
        json_of = (\<lambda>resp. if resp = ''null'' then Inr () else Inl ValueError),
        urljoin = (\<lambda>base rel. base @ rel),
        current_url = ''http://localhost:8080'', current_host = ''localhost'',
        MISSING_SERVER = (\<lambda>host. ''Unable to connect to the server at '' @ host)\<rparr>
       ''get'' (Some ''app1'') []
     = ([], Inl (Lib NameError)) \<and>
   json_of \<lparr>attr = (\<lambda>name. if name = ''get'' then Some (\<lambda>target kw. Inr ''<html>'') else None),
        json_of = (\<lambda>resp. if resp = ''null'' then Inr () else Inl ValueError),
        urljoin = (\<lambda>base rel. base @ rel),
        current_url = ''http://localhost:8080'', current_host = ''localhost'',
        MISSING_SERVER = (\<lambda>host. ''Unable to connect to the server at '' @ host)\<rparr> ''<html>''
     = Inl ValueError \<and>
   snd (load_jsons (\<lambda>text. if text = ''null'' then Inr () else Inl ValueError) ''<html>'')
     = Inl (DCOSException ''Error loading JSON.'')"
proof -
  have "snd (req env verb url kw) \<noteq> Inr r"
    using req_raises [of env verb url kw] by auto
  moreover have "with_headers [] = Inr [(''headers'', Dict [(''content-type'', ''application/json'')])]"
    by code_simp
  ultimately show ?thesis
    by (simp add: req_def try_body_raises load_jsons_def)
qed

end
